theory Spec2Isabelle
  imports Complex_Main "HOL-Library.Stream"
begin

section \<open>Time, durations and the configuration\<close>

text \<open>
  Go's \<^verbatim>\<open>time.Time\<close> and \<^verbatim>\<open>time.Duration\<close> are read as integers counting
  nanoseconds; \<open>0\<close> is the zero \<^verbatim>\<open>time.Time\<close>, which every clock reading
  follows. The saturation of \<^verbatim>\<open>Duration\<close> at the ends of int64 (about 292 years) is
  outside the model. Go's \<^verbatim>\<open>int\<close> is read as \<open>int\<close>; no arithmetic is done on it
  here.
\<close>

type_synonym time = int
type_synonym duration = int

definition Second :: duration where
  "Second = 1000000000"

definition Minute :: duration where
  "Minute = 60 * Second"

text \<open>\<^verbatim>\<open>Duration.Seconds()\<close>: a duration as a number of seconds.\<close>

definition Seconds :: "duration \<Rightarrow> real" where
  "Seconds d = real_of_int d / 1000000000"

text \<open>
  A \<^verbatim>\<open>float64\<close> is a real number, an infinity or NaN (rounding is outside the
  model). \<open>le_zero x\<close> is Go's comparison \<^verbatim>\<open>x <= 0\<close>, which is false of NaN.
\<close>

datatype float64 = Finite real | PosInf | NegInf | NaN

fun le_zero :: "float64 \<Rightarrow> bool" where
  "le_zero (Finite r) = (r \<le> 0)"
| "le_zero PosInf = False"
| "le_zero NegInf = True"
| "le_zero NaN = False"

record Config =
  RequestsPerSecond :: float64
  Burst :: int
  CleanupInterval :: duration
  MaxIdleTime :: duration

text \<open>
  The code passes configurations by pointer (\<^verbatim>\<open>*Config\<close>) and keeps the pointer it
  is given, so configurations live in a store: \<open>cells\<close> maps an address to the
  \<open>Config\<close> it holds and \<open>next_free\<close> is the first address never handed out.
  A \<^verbatim>\<open>nil\<close> pointer is \<open>None\<close>.
\<close>

type_synonym ptr = nat

record heap =
  cells :: "ptr \<Rightarrow> Config"
  next_free :: ptr

definition store :: "heap \<Rightarrow> ptr \<Rightarrow> Config \<Rightarrow> heap" where
  "store h p c = h\<lparr>cells := (cells h)(p := c)\<rparr>"

definition alloc :: "heap \<Rightarrow> Config \<Rightarrow> heap \<times> ptr" where
  "alloc h c = (h\<lparr>cells := (cells h)(next_free h := c), next_free := Suc (next_free h)\<rparr>,
                next_free h)"

text \<open>The literal of \<^verbatim>\<open>DefaultConfig\<close>, and the function, which returns the address
  of a new \<open>Config\<close> holding it.\<close>

definition default_values :: Config where
  "default_values =
     \<lparr>RequestsPerSecond = Finite 1, Burst = 5, CleanupInterval = Minute, MaxIdleTime = 3 * Minute\<rparr>"

definition DefaultConfig :: "heap \<Rightarrow> heap \<times> ptr" where
  "DefaultConfig h = alloc h default_values"

text \<open>\<^verbatim>\<open>(c *Config) Validate()\<close>: four tests in sequence, each overwriting one field
  of the \<open>Config\<close> the receiver points to.\<close>

definition Validate :: "heap \<Rightarrow> ptr \<Rightarrow> heap" where
  "Validate h c =
     (let h1 = (if le_zero (RequestsPerSecond (cells h c))
                then store h c ((cells h c)\<lparr>RequestsPerSecond := Finite 1\<rparr>) else h);
          h2 = (if Burst (cells h1 c) \<le> 0
                then store h1 c ((cells h1 c)\<lparr>Burst := 5\<rparr>) else h1);
          h3 = (if CleanupInterval (cells h2 c) < Second
                then store h2 c ((cells h2 c)\<lparr>CleanupInterval := Minute\<rparr>) else h2);
          h4 = (if MaxIdleTime (cells h3 c) < Second
                then store h3 c ((cells h3 c)\<lparr>MaxIdleTime := 3 * Minute\<rparr>) else h3)
      in h4)"

section \<open>The token bucket behind \<^verbatim>\<open>*rate.Limiter\<close>\<close>

text \<open>
  Modelled from the spec: the package \<^verbatim>\<open>golang.org/x/time/rate\<close> (the type
  \<^verbatim>\<open>rate.Limiter\<close>, \<^verbatim>\<open>rate.NewLimiter\<close> and \<^verbatim>\<open>Limiter.Allow\<close>) is a
  dependency whose code is not among the sources. The record is the spec's TokenBucket
  (section 3), \<open>NewLimiter\<close> its creation (tokens initialised to the capacity) and
  \<open>Allow\<close> its TryConsume (section 4.1): add elapsed time times rate, capped at the
  capacity, set the time of the last refill to now, then consume one token if at least
  one is there. The source's call \<^verbatim>\<open>rate.NewLimiter(limit, burst)\<close> passes no clock
  reading, so a new bucket's \<open>lastRefill\<close> is the zero time.

  The rate of the spec's bucket is a real number. \<open>Limit\<close> is the conversion
  \<^verbatim>\<open>rate.Limit(x)\<close> the source applies to the configured \<^verbatim>\<open>float64\<close>: a finite value
  is the rate itself. The spec has no bucket whose rate is an infinity or NaN, so
  \<open>Limit\<close> has no equation for them, and every statement below that depends on the
  rate of a bucket names a finite configured rate.
\<close>

fun Limit :: "float64 \<Rightarrow> real" where
  "Limit (Finite r) = r"

record Limiter =
  rate :: real
  capacity :: int
  tokens :: real
  lastRefill :: time

definition NewLimiter :: "real \<Rightarrow> int \<Rightarrow> Limiter" where
  "NewLimiter r b = \<lparr>rate = r, capacity = b, tokens = real_of_int b, lastRefill = 0\<rparr>"

definition refill :: "Limiter \<Rightarrow> time \<Rightarrow> Limiter" where
  "refill l now =
     l\<lparr>tokens := min (real_of_int (capacity l))
                     (tokens l + Seconds (now - lastRefill l) * rate l),
       lastRefill := now\<rparr>"

definition Allow :: "Limiter \<Rightarrow> time \<Rightarrow> bool \<times> Limiter" where
  "Allow l now =
     (let l1 = refill l now
      in if 1 \<le> tokens l1 then (True, l1\<lparr>tokens := tokens l1 - 1\<rparr>) else (False, l1))"

section \<open>The limiter instance (\<^verbatim>\<open>RateLimiter\<close>)\<close>

text \<open>
  A visitor owns its limiter: \<^verbatim>\<open>getVisitor\<close> builds one per new key and no other
  entry ever refers to it, so the pointer \<^verbatim>\<open>*rate.Limiter\<close> is held by value. The
  mutex \<^verbatim>\<open>mx\<close> makes each locked section one step; the model is sequential and every
  operation below is one such step or a sequence of them.
\<close>

record visitor =
  limiter :: Limiter
  lastSeen :: time

record RateLimiter =
  config :: ptr
  visitors :: "string \<rightharpoonup> visitor"

text \<open>\<^verbatim>\<open>New\<close>. The goroutine it starts is \<open>cleanupVisitors\<close> below.\<close>

definition New :: "heap \<Rightarrow> ptr option \<Rightarrow> heap \<times> RateLimiter" where
  "New h cfg =
     (let (h1, p) = (case cfg of None \<Rightarrow> DefaultConfig h | Some p \<Rightarrow> (h, p));
          h2 = Validate h1 p
      in (h2, \<lparr>config = p, visitors = Map.empty\<rparr>))"

text \<open>\<^verbatim>\<open>getVisitor\<close>, with the reading of \<^verbatim>\<open>time.Now()\<close> as an argument: the
  limiter instance after the call and the limiter returned.\<close>

definition getVisitor :: "heap \<Rightarrow> RateLimiter \<Rightarrow> string \<Rightarrow> time \<Rightarrow> RateLimiter \<times> Limiter" where
  "getVisitor h rl ip now =
     (case visitors rl ip of
        None \<Rightarrow>
          (let lmt = NewLimiter (Limit (RequestsPerSecond (cells h (config rl))))
                                (Burst (cells h (config rl)))
           in (rl\<lparr>visitors := (visitors rl)(ip \<mapsto> \<lparr>limiter = lmt, lastSeen = now\<rparr>)\<rparr>, lmt))
      | Some v \<Rightarrow>
          (rl\<lparr>visitors := (visitors rl)(ip \<mapsto> v\<lparr>lastSeen := now\<rparr>)\<rparr>, limiter v))"

text \<open>
  The body of the handler of \<^verbatim>\<open>Middleware\<close> once the key is known:
  \<^verbatim>\<open>limiter := rl.getVisitor(ip)\<close>, then \<^verbatim>\<open>limiter.Allow()\<close>. The two calls read
  the clock one after the other (\<open>tSeen\<close>, \<open>tAllow\<close>). \<open>Allow\<close> changes the limiter
  through the pointer the entry of the map holds as well; if the entry is gone the map
  is left as it is. The verdict \<open>True\<close> passes the request on, \<open>False\<close> answers 429.
\<close>

definition admit :: "heap \<Rightarrow> RateLimiter \<Rightarrow> string \<Rightarrow> time \<Rightarrow> time \<Rightarrow> RateLimiter \<times> bool" where
  "admit h rl ip tSeen tAllow =
     (let (rl1, lmt) = getVisitor h rl ip tSeen;
          (ok, lmt') = Allow lmt tAllow
      in (case visitors rl1 ip of
            None \<Rightarrow> (rl1, ok)
          | Some v \<Rightarrow> (rl1\<lparr>visitors := (visitors rl1)(ip \<mapsto> v\<lparr>limiter := lmt'\<rparr>)\<rparr>, ok)))"

text \<open>A sequence of admission checks for one key: the final state and the verdicts.\<close>

fun admits :: "heap \<Rightarrow> RateLimiter \<Rightarrow> string \<Rightarrow> (time \<times> time) list \<Rightarrow> RateLimiter \<times> bool list" where
  "admits h rl ip [] = (rl, [])"
| "admits h rl ip ((tSeen, tAllow) # ts) =
     (let (rl1, ok) = admit h rl ip tSeen tAllow;
          (rl2, oks) = admits h rl1 ip ts
      in (rl2, ok # oks))"

text \<open>
  One iteration of the loop of \<^verbatim>\<open>cleanupVisitors\<close>: under the lock, every entry
  with \<^verbatim>\<open>time.Since(v.lastSeen) >= rl.config.MaxIdleTime\<close> is deleted. The pass reads
  the clock once per entry; the model takes one reading \<open>now\<close> for the pass.
\<close>

definition cleanupVisitors_pass :: "heap \<Rightarrow> RateLimiter \<Rightarrow> time \<Rightarrow> RateLimiter" where
  "cleanupVisitors_pass h rl now =
     rl\<lparr>visitors := (\<lambda>ip. case visitors rl ip of
                              None \<Rightarrow> None
                            | Some v \<Rightarrow>
                                if now - lastSeen v \<ge> MaxIdleTime (cells h (config rl))
                                then None else Some v)\<rparr>"

text \<open>
  \<^verbatim>\<open>cleanupVisitors\<close>: \<^verbatim>\<open>time.NewTicker\<close> panics on an interval that is not
  positive; then the loop \<^verbatim>\<open>for range ticker.C\<close> runs one pass per tick. The channel
  of a ticker is never closed and the loop has no \<^verbatim>\<open>break\<close> or \<^verbatim>\<open>return\<close>, so the
  ticks are a stream and the loop is run with fuel: \<open>cleanup_loop n\<close> serves the first
  \<open>n\<close> ticks. \<open>Waiting rl\<close> says that the loop is then blocked on the channel for its
  next tick, the limiter instance being \<open>rl\<close>; \<open>Panicked e\<close> is a panic; \<open>Returned\<close>
  would be the end of the function. The loop keeps nothing of its own but the ticker,
  so its next \<open>n\<close> iterations from any moment on are \<open>cleanup_loop n\<close> on the store and
  the instance of that moment.
\<close>

datatype error = NonPositiveTickerInterval | NilPointerDereference | IndexOutOfRange





text \<open>
  What happens to a limiter instance over time: handlers serving requests and ticks of
  the sweeper, in the order in which they take the lock. \<open>allow_times es\<close> lists the
  clock readings of the calls of \<open>Allow\<close> in \<open>es\<close>; \<open>sorted (0 # allow_times es)\<close> says
  that they follow the zero time and never go back (Go's clock readings carry a
  monotonic part, and \<^verbatim>\<open>Sub\<close> and \<^verbatim>\<open>Since\<close> use it).
\<close>

datatype event = Check string time time | Sweep time

fun step :: "heap \<Rightarrow> RateLimiter \<Rightarrow> event \<Rightarrow> RateLimiter" where
  "step h rl (Check ip tSeen tAllow) = fst (admit h rl ip tSeen tAllow)"
| "step h rl (Sweep now) = cleanupVisitors_pass h rl now"

fun run :: "heap \<Rightarrow> RateLimiter \<Rightarrow> event list \<Rightarrow> RateLimiter" where
  "run h rl [] = rl"
| "run h rl (e # es) = run h (step h rl e) es"

fun allow_times :: "event list \<Rightarrow> time list" where
  "allow_times [] = []"
| "allow_times (Check ip tSeen tAllow # es) = tAllow # allow_times es"
| "allow_times (Sweep now # es) = allow_times es"

text \<open>The package-level instance: \<^verbatim>\<open>globalLimiter\<close> (\<open>None\<close> is \<^verbatim>\<open>nil\<close>),
  \<^verbatim>\<open>Initialize\<close>, and what \<^verbatim>\<open>RateLimitMiddleware\<close> does before it hands over to
  \<^verbatim>\<open>globalLimiter.Middleware\<close>.\<close>

definition Initialize :: "heap \<Rightarrow> ptr option \<Rightarrow> heap \<times> RateLimiter option" where
  "Initialize h cfg = (let (h1, rl) = New h cfg in (h1, Some rl))"

definition RateLimitMiddleware :: "heap \<Rightarrow> RateLimiter option \<Rightarrow> heap \<times> RateLimiter option" where
  "RateLimitMiddleware h globalLimiter =
     (case globalLimiter of
        None \<Rightarrow> (let (h1, p) = DefaultConfig h in Initialize h1 (Some p))
      | Some rl \<Rightarrow> (h, globalLimiter))"

section \<open>The key of a request (\<^verbatim>\<open>getClientIP\<close>)\<close>

text \<open>
  A request is what \<^verbatim>\<open>getClientIP\<close> reads of it: \<^verbatim>\<open>r.Header.Get\<close> (the value of a
  header, empty when it is absent) and \<^verbatim>\<open>r.RemoteAddr\<close>. \<^verbatim>\<open>strings.TrimSpace\<close> and
  \<^verbatim>\<open>net.SplitHostPort\<close> are functions of Go's library and are taken as parameters
  (\<open>None\<close> is a non-nil \<^verbatim>\<open>err\<close>); \<^verbatim>\<open>strings.Split\<close> on a one-byte separator is
  written out, since the code indexes its result.
\<close>

record Request =
  Header_Get :: "string \<Rightarrow> string"
  RemoteAddr :: string

record stdlib =
  TrimSpace :: "string \<Rightarrow> string"
  SplitHostPort :: "string \<Rightarrow> (string \<times> string) option"

fun Split :: "string \<Rightarrow> char \<Rightarrow> string list" where
  "Split [] sep = [[]]"
| "Split (c # cs) sep =
     (if c = sep then [] # Split cs sep
      else (case Split cs sep of [] \<Rightarrow> [[c]] | w # ws \<Rightarrow> (c # w) # ws))"

definition getClientIP :: "stdlib \<Rightarrow> Request \<Rightarrow> error + string" where
  "getClientIP lib r =
     (let xForwardedFor = Header_Get r ''X-Forwarded-For''
      in if xForwardedFor \<noteq> [] then
           (case Split xForwardedFor (CHR '','') of
              [] \<Rightarrow> Inl IndexOutOfRange
            | ip0 # _ \<Rightarrow> Inr (TrimSpace lib ip0))
         else
           (let realIP = Header_Get r ''X-Real-IP''
            in if realIP \<noteq> [] then Inr realIP
               else (case SplitHostPort lib (RemoteAddr r) of
                       None \<Rightarrow> Inr (RemoteAddr r)
                     | Some (host, port) \<Rightarrow> Inr host)))"

datatype response = PassedToNext | StatusTooManyRequests


section \<open>The exported operations\<close>






section \<open>The package-level limiter of \<^verbatim>\<open>src/rate-limit.go\<close>\<close>

text \<open>
  The file \<^verbatim>\<open>src/rate-limit.go\<close> keeps the map and the configuration in package
  variables. Its functions carry the names of the ones above; here they are prefixed
  with \<open>legacy\<close>. \<^verbatim>\<open>config\<close> starts \<^verbatim>\<open>nil\<close>, and reading a field through it then
  panics.
\<close>

record globals =
  g_config :: "ptr option"
  g_visitors :: "string \<rightharpoonup> visitor"

definition legacy_Initialize :: "heap \<Rightarrow> globals \<Rightarrow> ptr option \<Rightarrow> heap \<times> globals" where
  "legacy_Initialize h g cfg =
     (let (h1, p) = (case cfg of None \<Rightarrow> DefaultConfig h | Some p \<Rightarrow> (h, p))
      in (h1, g\<lparr>g_config := Some p\<rparr>))"

definition legacy_getVisitor :: "heap \<Rightarrow> globals \<Rightarrow> string \<Rightarrow> time \<Rightarrow> error + (globals \<times> Limiter)" where
  "legacy_getVisitor h g ip now =
     (case g_visitors g ip of
        None \<Rightarrow>
          (case g_config g of
             None \<Rightarrow> Inl NilPointerDereference
           | Some p \<Rightarrow>
               (let lmt = NewLimiter (Limit (RequestsPerSecond (cells h p))) (Burst (cells h p))
                in Inr (g\<lparr>g_visitors := (g_visitors g)(ip \<mapsto> \<lparr>limiter = lmt, lastSeen = now\<rparr>)\<rparr>,
                        lmt)))
      | Some v \<Rightarrow>
          Inr (g\<lparr>g_visitors := (g_visitors g)(ip \<mapsto> v\<lparr>lastSeen := now\<rparr>)\<rparr>, limiter v))"

text \<open>One iteration of the loop of the legacy \<^verbatim>\<open>cleanupVisitors\<close>, after its
  \<^verbatim>\<open>time.Sleep(config.CleanupInterval)\<close>: the test is
  \<^verbatim>\<open>time.Since(v.lastSeen) > config.MaxIdleTime\<close>.\<close>

definition legacy_cleanupVisitors_pass :: "heap \<Rightarrow> globals \<Rightarrow> time \<Rightarrow> error + globals" where
  "legacy_cleanupVisitors_pass h g now =
     (case g_config g of
        None \<Rightarrow> Inl NilPointerDereference
      | Some p \<Rightarrow>
          Inr (g\<lparr>g_visitors := (\<lambda>ip. case g_visitors g ip of
                                        None \<Rightarrow> None
                                      | Some v \<Rightarrow>
                                          if now - lastSeen v > MaxIdleTime (cells h p)
                                          then None else Some v)\<rparr>))"

text \<open>The key the handler of the legacy \<^verbatim>\<open>RateLimitMiddleware\<close> uses
  (\<^verbatim>\<open>ip := r.RemoteAddr\<close>), and the handler.\<close>

definition legacy_key :: "Request \<Rightarrow> string" where
  "legacy_key r = RemoteAddr r"

definition legacy_handler :: "heap \<Rightarrow> globals \<Rightarrow> Request \<Rightarrow> time \<Rightarrow> time \<Rightarrow> error + (globals \<times> response)" where
  "legacy_handler h g r tSeen tAllow =
     (case legacy_getVisitor h g (legacy_key r) tSeen of
        Inl e \<Rightarrow> Inl e
      | Inr (g1, lmt) \<Rightarrow>
          (let (ok, lmt') = Allow lmt tAllow;
               g2 = (case g_visitors g1 (legacy_key r) of
                       None \<Rightarrow> g1
                     | Some v \<Rightarrow> g1\<lparr>g_visitors := (g_visitors g1)(legacy_key r \<mapsto> v\<lparr>limiter := lmt'\<rparr>)\<rparr>)
           in Inr (g2, if ok then PassedToNext else StatusTooManyRequests)))"

definition legacy_RateLimitMiddleware :: "heap \<Rightarrow> globals \<Rightarrow> heap \<times> globals" where
  "legacy_RateLimitMiddleware h g =
     (case g_config g of
        None \<Rightarrow> (let (h1, p) = DefaultConfig h in legacy_Initialize h1 g (Some p))
      | Some p \<Rightarrow> (h, g))"

section \<open>Predicates and a store used in the statements\<close>

text \<open>A configuration as \<^verbatim>\<open>Validate\<close> leaves it: none of its four tests holds.\<close>

definition valid_config :: "Config \<Rightarrow> bool" where
  "valid_config c =
     (\<not> le_zero (RequestsPerSecond c) \<and> 1 \<le> Burst c \<and> Second \<le> CleanupInterval c
      \<and> Second \<le> MaxIdleTime c)"

text \<open>The invariant of a bucket (spec, section 3), with a rate that is not negative.\<close>

definition bucket_ok :: "Limiter \<Rightarrow> bool" where
  "bucket_ok l = (0 \<le> rate l \<and> 0 \<le> tokens l \<and> tokens l \<le> real_of_int (capacity l))"

text \<open>Every bucket of a map is in order and was last refilled no later than \<open>t\<close>.\<close>

definition buckets_ok :: "time \<Rightarrow> (string \<rightharpoonup> visitor) \<Rightarrow> bool" where
  "buckets_ok t m = (\<forall>ip v. m ip = Some v \<longrightarrow> bucket_ok (limiter v) \<and> lastRefill (limiter v) \<le> t)"

text \<open>A store in which nothing has been allocated yet.\<close>

definition heap0 :: heap where
  "heap0 = \<lparr>cells = (\<lambda>_. \<lparr>RequestsPerSecond = Finite 0, Burst = 0, CleanupInterval = 0,
                           MaxIdleTime = 0\<rparr>),
             next_free = 0\<rparr>"

text \<open>
  Instances of the two library functions for concrete requests. \<open>plain_TrimSpace\<close>
  removes leading and trailing ASCII white space, as \<^verbatim>\<open>strings.TrimSpace\<close> does on
  ASCII text. \<open>plain_SplitHostPort\<close> splits \<^verbatim>\<open>host:port\<close> at its colon, as
  \<^verbatim>\<open>net.SplitHostPort\<close> does on an address without brackets, and reports an error
  on anything else.
\<close>

definition plain_TrimSpace :: "string \<Rightarrow> string" where
  "plain_TrimSpace s =
     (let sp = (\<lambda>c. c \<in> set [CHR 0x09, CHR 0x0A, CHR 0x0B, CHR 0x0C, CHR 0x0D, CHR '' ''])
      in rev (dropWhile sp (rev (dropWhile sp s))))"

definition plain_SplitHostPort :: "string \<Rightarrow> (string \<times> string) option" where
  "plain_SplitHostPort s =
     (let port = rev (takeWhile (\<lambda>c. c \<noteq> CHR '':'') (rev s));
          host = rev (drop 1 (dropWhile (\<lambda>c. c \<noteq> CHR '':'') (rev s)))
      in if CHR '':'' \<in> set s \<and> CHR '':'' \<notin> set host \<and> CHR ''['' \<notin> set s \<and> CHR '']'' \<notin> set s
         then Some (host, port) else None)"

definition plain_stdlib :: stdlib where
  "plain_stdlib = \<lparr>TrimSpace = plain_TrimSpace, SplitHostPort = plain_SplitHostPort\<rparr>"

text \<open>Two requests from the connection \<^verbatim>\<open>10.0.0.1:51234\<close>: one through proxies that
  set \<^verbatim>\<open>X-Forwarded-For\<close>, one with neither header.\<close>

definition forwarded_request :: Request where
  "forwarded_request =
     \<lparr>Header_Get = (\<lambda>k. if k = ''X-Forwarded-For'' then ''203.0.113.7, 10.0.0.2'' else []),
      RemoteAddr = ''10.0.0.1:51234''\<rparr>"

definition direct_request :: Request where
  "direct_request = \<lparr>Header_Get = (\<lambda>k. []), RemoteAddr = ''10.0.0.1:51234''\<rparr>"



section \<open>Configuration and construction: basic facts\<close>

lemma Validate_cells:
  "cells (Validate h c) q =
     (if q = c then
        \<lparr>RequestsPerSecond = (if le_zero (RequestsPerSecond (cells h c)) then Finite 1
                             else RequestsPerSecond (cells h c)),
         Burst = (if Burst (cells h c) \<le> 0 then 5 else Burst (cells h c)),
         CleanupInterval = (if CleanupInterval (cells h c) < Second then Minute else CleanupInterval (cells h c)),
         MaxIdleTime = (if MaxIdleTime (cells h c) < Second then 3 * Minute else MaxIdleTime (cells h c))\<rparr>
      else cells h q)"
  by (simp add: Validate_def store_def Let_def)

lemma Validate_next_free: "next_free (Validate h c) = next_free h"
  by (simp add: Validate_def store_def Let_def)

lemma Validate_valid: "valid_config (cells (Validate h c) c)"
  by (simp add: Validate_cells valid_config_def Second_def Minute_def)

lemma New_config_valid: "valid_config (cells (fst (New h cfg)) (config (snd (New h cfg))))"
  by (simp add: New_def Let_def split_def Validate_valid split: option.split)

lemma New_None:
  "New heap0 None = (\<lparr>cells = (cells heap0)(0 := default_values), next_free = 1\<rparr>,
                     \<lparr>config = 0, visitors = Map.empty\<rparr>)"
  by (simp add: New_def DefaultConfig_def alloc_def heap0_def Validate_def Let_def
      default_values_def Second_def Minute_def store_def)

section \<open>The bucket: basic facts\<close>

lemma refill_fresh:
  assumes "0 \<le> r" "0 \<le> now"
  shows "refill (NewLimiter r b) now = \<lparr>rate = r, capacity = b, tokens = real_of_int b, lastRefill = now\<rparr>"
proof -
  have "0 \<le> Seconds now * r" using assms by (simp add: Seconds_def)
  then show ?thesis by (simp add: refill_def NewLimiter_def min_def)
qed

lemma Allow_fresh:
  assumes "0 \<le> r" "1 \<le> b" "0 \<le> now"
  shows "Allow (NewLimiter r b) now = (True, \<lparr>rate = r, capacity = b, tokens = real_of_int b - 1, lastRefill = now\<rparr>)"
  using assms by (simp add: Allow_def refill_fresh Let_def)

lemma Allow_zero_elapsed:
  assumes "lastRefill l = now" "tokens l \<le> real_of_int (capacity l)"
  shows "Allow l now =
     (if 1 \<le> tokens l then (True, l\<lparr>tokens := tokens l - 1\<rparr>) else (False, l))"
  using assms by (auto simp add: Allow_def refill_def Seconds_def Let_def min_def)

lemma refill_bounds:
  assumes "bucket_ok l" "lastRefill l \<le> now"
  shows "tokens l \<le> tokens (refill l now)"
    and "tokens (refill l now) \<le> real_of_int (capacity l)"
    and "0 \<le> tokens (refill l now)"
proof -
  have "0 \<le> Seconds (now - lastRefill l) * rate l"
    using assms by (simp add: Seconds_def bucket_ok_def)
  then show "tokens l \<le> tokens (refill l now)"
    and "tokens (refill l now) \<le> real_of_int (capacity l)"
    and "0 \<le> tokens (refill l now)"
    using assms by (simp_all add: refill_def bucket_ok_def min_def)
qed

lemma refill_fields [simp]:
  "rate (refill l now) = rate l" "capacity (refill l now) = capacity l"
  "lastRefill (refill l now) = now"
  by (simp_all add: refill_def)

lemma Allow_fields [simp]:
  "rate (snd (Allow l now)) = rate l" "capacity (snd (Allow l now)) = capacity l"
  "lastRefill (snd (Allow l now)) = now"
  by (simp_all add: Allow_def Let_def)

lemma Allow_tokens:
  "tokens (snd (Allow l now)) =
     (if fst (Allow l now) then tokens (refill l now) - 1 else tokens (refill l now))"
  "fst (Allow l now) = (1 \<le> tokens (refill l now))"
  by (simp_all add: Allow_def Let_def)

lemma Allow_ok:
  assumes "bucket_ok l" "lastRefill l \<le> now"
  shows "bucket_ok (snd (Allow l now))"
  using refill_bounds [OF assms] assms(1)
  by (simp add: bucket_ok_def Allow_tokens)

lemma NewLimiter_ok: "0 \<le> r \<Longrightarrow> 0 \<le> b \<Longrightarrow> bucket_ok (NewLimiter r b)"
  by (simp add: bucket_ok_def NewLimiter_def)

lemma Seconds_ge_one: "Second \<le> d \<Longrightarrow> 1 \<le> Seconds d"
  by (simp add: Second_def Seconds_def)

lemma Seconds_less_two: "d < 2 * Second \<Longrightarrow> Seconds d < 2"
  by (simp add: Second_def Seconds_def)

lemma Seconds_diff: "Seconds (c - a) = Seconds (b - a) + Seconds (c - b)"
  by (simp add: Seconds_def field_simps)

lemma refill_refill:
  assumes "0 \<le> rate l" "lastRefill l \<le> t1" "t1 \<le> t2"
  shows "refill (refill l t1) t2 = refill l t2"
proof -
  have a: "0 \<le> Seconds (t1 - lastRefill l) * rate l" and b: "0 \<le> Seconds (t2 - t1) * rate l"
    using assms by (simp_all add: Seconds_def)
  have "Seconds (t2 - lastRefill l) * rate l =
          Seconds (t1 - lastRefill l) * rate l + Seconds (t2 - t1) * rate l"
    by (simp add: Seconds_diff [of t2 "lastRefill l" t1] algebra_simps)
  then show ?thesis using a b by (simp add: refill_def min_def)
qed

section \<open>Admission checks: basic facts\<close>

lemma admit_fresh:
  assumes "visitors rl ip = None" "0 \<le> Limit (RequestsPerSecond (cells h (config rl)))"
    "1 \<le> Burst (cells h (config rl))" "0 \<le> tAllow"
  shows "admit h rl ip tSeen tAllow =
     (rl\<lparr>visitors := (visitors rl)(ip \<mapsto>
         \<lparr>limiter = \<lparr>rate = Limit (RequestsPerSecond (cells h (config rl))), capacity = Burst (cells h (config rl)),
                     tokens = real_of_int (Burst (cells h (config rl))) - 1, lastRefill = tAllow\<rparr>,
          lastSeen = tSeen\<rparr>)\<rparr>, True)"
  using assms by (simp add: admit_def getVisitor_def Let_def Allow_fresh)

lemma admit_existing:
  assumes "visitors rl ip = Some v"
  shows "admit h rl ip tSeen tAllow =
     (rl\<lparr>visitors := (visitors rl)(ip \<mapsto>
         v\<lparr>lastSeen := tSeen, limiter := snd (Allow (limiter v) tAllow)\<rparr>)\<rparr>, fst (Allow (limiter v) tAllow))"
  using assms by (simp add: admit_def getVisitor_def Let_def split_def)

lemma admit_at_instant:
  assumes "visitors rl ip = Some \<lparr>limiter = \<lparr>rate = r, capacity = c, tokens = x, lastRefill = t\<rparr>, lastSeen = t0\<rparr>"
    and "x \<le> real_of_int c"
  shows "admit h rl ip t t =
     (rl\<lparr>visitors := (visitors rl)(ip \<mapsto>
         \<lparr>limiter = \<lparr>rate = r, capacity = c, tokens = (if 1 \<le> x then x - 1 else x), lastRefill = t\<rparr>,
          lastSeen = t\<rparr>)\<rparr>, 1 \<le> x)"
  using assms by (simp add: admit_existing Allow_zero_elapsed)

lemma admit_config: "config (fst (admit h rl ip tSeen tAllow)) = config rl"
  by (simp add: admit_def getVisitor_def Let_def split_def split: option.split)

lemma step_config: "config (step h rl e) = config rl"
  by (cases e) (simp_all add: admit_config cleanupVisitors_pass_def)

lemma run_config: "config (run h rl es) = config rl"
  by (induction es arbitrary: rl) (simp_all add: step_config)

lemma admits_append:
  "admits h rl ip (xs @ ys) =
     (fst (admits h (fst (admits h rl ip xs)) ip ys),
      snd (admits h rl ip xs) @ snd (admits h (fst (admits h rl ip xs)) ip ys))"
  by (induction xs arbitrary: rl) (auto simp add: split_def Let_def)

lemma exhaust_fresh:
  assumes fresh: "visitors rl ip = None"
    and r: "0 \<le> Limit (RequestsPerSecond (cells h (config rl)))"
    and b: "Burst (cells h (config rl)) = 5"
    and t: "0 \<le> t"
  shows "admits h rl ip [(t, t), (t, t), (t, t), (t, t), (t, t), (t, t)] =
     (rl\<lparr>visitors := (visitors rl)(ip \<mapsto>
         \<lparr>limiter = \<lparr>rate = Limit (RequestsPerSecond (cells h (config rl))), capacity = 5,
                     tokens = 0, lastRefill = t\<rparr>, lastSeen = t\<rparr>)\<rparr>,
      [True, True, True, True, True, False])"
proof -
  define S where "S x = rl\<lparr>visitors := (visitors rl)(ip \<mapsto>
         \<lparr>limiter = \<lparr>rate = Limit (RequestsPerSecond (cells h (config rl))), capacity = 5,
                     tokens = x, lastRefill = t\<rparr>, lastSeen = t\<rparr>)\<rparr>" for x :: real
  have first: "admit h rl ip t t = (S 4, True)"
    using admit_fresh [OF fresh r _ t, of t] b by (simp add: S_def)
  have next_one: "admit h (S x) ip t t = (S (if 1 \<le> x then x - 1 else x), 1 \<le> x)"
    if "x \<le> 5" for x
    using that by (simp add: S_def admit_at_instant [where x = x and ?t0.0 = t])
  have a4: "admit h (S 4) ip t t = (S 3, True)" using next_one [of 4] by simp
  have a3: "admit h (S 3) ip t t = (S 2, True)" using next_one [of 3] by simp
  have a2: "admit h (S 2) ip t t = (S 1, True)" using next_one [of 2] by simp
  have a1: "admit h (S 1) ip t t = (S 0, True)" using next_one [of 1] by simp
  have a0: "admit h (S 0) ip t t = (S 0, False)" using next_one [of 0] by simp
  have "admits h rl ip [(t, t), (t, t), (t, t), (t, t), (t, t), (t, t)] =
          (S 0, [True, True, True, True, True, False])"
    by (simp add: first a4 a3 a2 a1 a0)
  then show ?thesis by (simp add: S_def)
qed


lemma buckets_ok_mono: "buckets_ok t m \<Longrightarrow> t \<le> t' \<Longrightarrow> buckets_ok t' m"
  by (fastforce simp add: buckets_ok_def)

lemma admit_buckets_ok:
  assumes ok: "buckets_ok t (visitors rl)"
    and cfg: "0 \<le> Limit (RequestsPerSecond (cells h (config rl)))" "0 \<le> Burst (cells h (config rl))"
    and t: "0 \<le> tAllow" "t \<le> tAllow"
  shows "buckets_ok tAllow (visitors (fst (admit h rl ip tSeen tAllow)))"
proof (cases "visitors rl ip")
  case None
  have "bucket_ok (snd (Allow (NewLimiter (Limit (RequestsPerSecond (cells h (config rl))))
           (Burst (cells h (config rl)))) tAllow))"
    using cfg t by (intro Allow_ok NewLimiter_ok) (simp_all add: NewLimiter_def)
  then show ?thesis
    using None buckets_ok_mono [OF ok t(2)]
    by (simp add: admit_def getVisitor_def Let_def split_def buckets_ok_def)
next
  case (Some v)
  have "bucket_ok (limiter v)" "lastRefill (limiter v) \<le> tAllow"
    using buckets_ok_mono [OF ok t(2)] Some by (auto simp add: buckets_ok_def)
  then have "bucket_ok (snd (Allow (limiter v) tAllow))"
    by (rule Allow_ok)
  then show ?thesis
    using Some buckets_ok_mono [OF ok t(2)]
    by (simp add: admit_existing buckets_ok_def)
qed

lemma cleanup_buckets_ok:
  "buckets_ok t (visitors rl) \<Longrightarrow> buckets_ok t (visitors (cleanupVisitors_pass h rl now))"
  by (auto simp add: buckets_ok_def cleanupVisitors_pass_def split: option.splits if_splits)

lemma run_buckets_ok:
  assumes "0 \<le> Limit (RequestsPerSecond (cells h (config rl)))" "0 \<le> Burst (cells h (config rl))"
    and "buckets_ok t (visitors rl)" "0 \<le> t" "sorted (t # allow_times es)"
  shows "\<exists>t'. buckets_ok t' (visitors (run h rl es))"
  using assms
proof (induction es arbitrary: rl t)
  case Nil
  then show ?case by auto
next
  case (Cons e es)
  show ?case
  proof (cases e)
    case (Check ip tSeen tAllow)
    have tt: "t \<le> tAllow" "0 \<le> tAllow" "sorted (tAllow # allow_times es)"
      using Cons.prems Check by auto
    have "buckets_ok tAllow (visitors (step h rl e))"
      using admit_buckets_ok [OF Cons.prems(3) Cons.prems(1) Cons.prems(2) tt(2) tt(1)] Check
      by simp
    then show ?thesis
      using Cons.IH [of "step h rl e" tAllow] Cons.prems tt by (simp add: step_config)
  next
    case (Sweep now)
    have at: "allow_times (e # es) = allow_times es"
      using Sweep by simp
    have "buckets_ok t (visitors (step h rl e))"
      using cleanup_buckets_ok [OF Cons.prems(3)] Sweep by simp
    then have "\<exists>t'. buckets_ok t' (visitors (run h (step h rl e) es))"
      using Cons.IH [of "step h rl e" t] Cons.prems(1,2,4,5) by (simp add: step_config at)
    then show ?thesis by simp
  qed
qed

lemma allow_times_take:
  "sorted (t # allow_times es) \<Longrightarrow> sorted (t # allow_times (take n es))"
proof (induction es arbitrary: t n)
  case Nil
  then show ?case by simp
next
  case (Cons e es)
  show ?case
  proof (cases n)
    case 0
    then show ?thesis by simp
  next
    case (Suc m)
    show ?thesis
    proof (cases e)
      case (Check ip tSeen tAllow)
      have "t \<le> tAllow" "sorted (tAllow # allow_times es)"
        using Cons.prems Check by auto
      then show ?thesis
        using Cons.IH [of tAllow m] Suc Check by auto
    next
      case (Sweep now)
      then show ?thesis
        using Cons.IH [of t m] Cons.prems Suc by simp
    qed
  qed
qed

lemma New_fst_snd:
  "cells (fst (New h (Some p))) q = cells (Validate h p) q"
  "config (snd (New h (Some p))) = p"
  "cells (fst (New h None)) (config (snd (New h None))) = default_values"
  "visitors (snd (New h cfg)) = Map.empty"
  by (simp_all add: New_def DefaultConfig_def alloc_def Let_def split_def Validate_cells
      default_values_def Second_def Minute_def split: option.split)

lemma Validate_valid_id: "valid_config (cells h p) \<Longrightarrow> Validate h p = h"
  by (simp add: Validate_def valid_config_def Let_def)

lemma New_valid_reached:
  assumes "New h0 cfg = (h, rl0)"
  shows "valid_config (cells h (config (run h rl0 es)))"
  using New_config_valid [of h0 cfg] assms by (simp add: run_config)



lemma positive_rate: "\<not> le_zero x \<Longrightarrow> x = Finite r \<Longrightarrow> 0 < r"
  by simp

lemma valid_finite:
  assumes "valid_config c" "RequestsPerSecond c = Finite r"
  shows "0 < Limit (RequestsPerSecond c)" "0 \<le> Limit (RequestsPerSecond c)" "1 \<le> Burst c"
    "0 \<le> Burst c"
  using assms by (simp_all add: valid_config_def)

lemma first_check_admitted:
  assumes "valid_config (cells h (config rl))" "RequestsPerSecond (cells h (config rl)) = Finite r"
    and "visitors rl ip = None" "0 \<le> t"
  shows "snd (admit h rl ip tSeen t)"
  using assms valid_finite [OF assms(1,2)] by (simp add: admit_fresh)

lemma admit_other_key:
  "ip' \<noteq> ip \<Longrightarrow> visitors (fst (admit h rl ip tSeen tAllow)) ip' = visitors rl ip'"
  by (simp add: admit_def getVisitor_def Let_def split_def split: option.split)

lemma admit_same_key:
  "visitors (fst (admit h rl ip tSeen tAllow)) ip \<noteq> None"
  by (simp add: admit_def getVisitor_def Let_def split_def split: option.split)

lemma admits_other_key:
  "ip' \<noteq> ip \<Longrightarrow> visitors (fst (admits h rl ip ts)) ip' = visitors rl ip'"
proof (induction ts arbitrary: rl)
  case Nil
  then show ?case by simp
next
  case (Cons a ts)
  obtain tSeen tAllow where a: "a = (tSeen, tAllow)" by (cases a)
  show ?case
    using Cons.IH [OF Cons.prems, of "fst (admit h rl ip tSeen tAllow)"] Cons.prems
    by (simp add: a split_def Let_def admit_other_key)
qed

lemma admits_config: "config (fst (admits h rl ip ts)) = config rl"
proof (induction ts arbitrary: rl)
  case Nil
  then show ?case by simp
next
  case (Cons a ts)
  obtain tSeen tAllow where a: "a = (tSeen, tAllow)" by (cases a)
  show ?case
    using Cons.IH [of "fst (admit h rl ip tSeen tAllow)"]
    by (simp add: a split_def Let_def admit_config)
qed

lemma admit_keeps_keys:
  "visitors rl ip' \<noteq> None \<Longrightarrow> visitors (fst (admit h rl ip tSeen tAllow)) ip' \<noteq> None"
  by (cases "ip' = ip") (simp_all add: admit_other_key admit_same_key)

lemma getVisitor_keeps_keys:
  "visitors rl ip' \<noteq> None \<Longrightarrow> visitors (fst (getVisitor h rl ip now)) ip' \<noteq> None"
  by (simp add: getVisitor_def Let_def split: option.split)

lemma run_checks:
  "run h rl (map (\<lambda>(tSeen, tAllow). Check ip tSeen tAllow) ts) = fst (admits h rl ip ts)"
  by (induction ts arbitrary: rl) (auto simp add: split_def Let_def)

section \<open>The sweep: basic facts\<close>

lemma cleanup_pass_exact:
  "visitors (cleanupVisitors_pass h rl now) ip =
     (case visitors rl ip of
        None \<Rightarrow> None
      | Some v \<Rightarrow> if MaxIdleTime (cells h (config rl)) \<le> now - lastSeen v then None else Some v)"
  by (simp add: cleanupVisitors_pass_def split: option.split)

lemma cleanup_pass_config: "config (cleanupVisitors_pass h rl now) = config rl"
  by (simp add: cleanupVisitors_pass_def)





section \<open>The key of a request: basic facts\<close>

lemma Split_hd: "Split s sep = takeWhile (\<lambda>c. c \<noteq> sep) s # tl (Split s sep)"
  by (induction s) (auto split: list.splits)

lemma getClientIP_precedence:
  "getClientIP lib r =
     Inr (if Header_Get r ''X-Forwarded-For'' \<noteq> []
          then TrimSpace lib (takeWhile (\<lambda>c. c \<noteq> CHR '','') (Header_Get r ''X-Forwarded-For''))
          else if Header_Get r ''X-Real-IP'' \<noteq> [] then Header_Get r ''X-Real-IP''
          else (case SplitHostPort lib (RemoteAddr r) of
                  None \<Rightarrow> RemoteAddr r
                | Some (host, port) \<Rightarrow> host))"
proof -
  obtain ws where sp: "Split (Header_Get r ''X-Forwarded-For'') (CHR '','') =
          takeWhile (\<lambda>c. c \<noteq> CHR '','') (Header_Get r ''X-Forwarded-For'') # ws"
    using Split_hd by blast
  show ?thesis
    by (simp add: getClientIP_def Let_def sp split: option.split)
qed



lemma RateLimitMiddleware_nil:
  "RateLimitMiddleware h None =
     (fst (New h None), Some (snd (New h None)))"
  by (simp add: RateLimitMiddleware_def Initialize_def New_def DefaultConfig_def split_def Let_def)

section \<open>The exported operations: basic facts\<close>









section \<open>The package-level limiter: basic facts\<close>

text \<open>With a configuration in place, the legacy handler does to the package's map what
  \<open>admit\<close> does to the map of an instance holding the same configuration.\<close>

lemma legacy_RateLimitMiddleware_nil:
  "g_config g = None \<Longrightarrow>
   legacy_RateLimitMiddleware h g =
     (fst (DefaultConfig h), g\<lparr>g_config := Some (next_free h)\<rparr>)"
  by (simp add: legacy_RateLimitMiddleware_def legacy_Initialize_def DefaultConfig_def alloc_def
      split_def Let_def)

lemma legacy_handler_eq:
  assumes "g_config g = Some p"
  shows "legacy_handler h g r tSeen tAllow =
     Inr (g\<lparr>g_visitors :=
               visitors (fst (admit h \<lparr>config = p, visitors = g_visitors g\<rparr> (legacy_key r) tSeen tAllow))\<rparr>,
          if snd (admit h \<lparr>config = p, visitors = g_visitors g\<rparr> (legacy_key r) tSeen tAllow)
          then PassedToNext else StatusTooManyRequests)"
  using assms
  by (cases "g_visitors g (legacy_key r)")
     (simp_all add: legacy_handler_def legacy_getVisitor_def admit_def getVisitor_def Let_def split_def)

lemma legacy_handler_other_key:
  assumes "legacy_handler h g r tSeen tAllow = Inr (g', resp)" "ip' \<noteq> legacy_key r"
  shows "g_visitors g' ip' = g_visitors g ip'" "g_config g' = g_config g"
  using assms
  by (auto simp add: legacy_handler_def legacy_getVisitor_def Let_def split_def
      split: option.splits sum.splits)

lemma legacy_buckets_ok:
  assumes "g_config g = Some p" "0 \<le> Limit (RequestsPerSecond (cells h p))" "0 \<le> Burst (cells h p)"
    and "buckets_ok t (g_visitors g)" "0 \<le> tAllow" "t \<le> tAllow"
    and "legacy_handler h g r tSeen tAllow = Inr (g', resp)"
  shows "buckets_ok tAllow (g_visitors g')"
proof -
  have "buckets_ok tAllow
          (visitors (fst (admit h \<lparr>config = p, visitors = g_visitors g\<rparr> (legacy_key r) tSeen tAllow)))"
    using assms(2-6) by (intro admit_buckets_ok [where t = t]) simp_all
  then show ?thesis
    using assms(7) unfolding legacy_handler_eq [OF assms(1)] by auto
qed

lemma legacy_first_check:
  assumes "g_config g = Some p" "0 \<le> Limit (RequestsPerSecond (cells h p))" "1 \<le> Burst (cells h p)"
    and "g_visitors g (legacy_key r) = None" "0 \<le> tAllow"
  shows "\<exists>g'. legacy_handler h g r tSeen tAllow = Inr (g', PassedToNext)"
  using assms by (simp add: legacy_handler_eq admit_fresh)

text \<open>The legacy limiter after \<^verbatim>\<open>Initialize(nil)\<close> and one request at time 7.\<close>

lemma legacy_first_request:
  "legacy_Initialize heap0 \<lparr>g_config = None, g_visitors = Map.empty\<rparr> None =
     (fst (DefaultConfig heap0), \<lparr>g_config = Some 0, g_visitors = Map.empty\<rparr>)"
  "cells (fst (DefaultConfig heap0)) 0 = default_values"
  "legacy_handler (fst (DefaultConfig heap0)) \<lparr>g_config = Some 0, g_visitors = Map.empty\<rparr>
        direct_request 7 7 =
      Inr (\<lparr>g_config = Some 0, g_visitors = [''10.0.0.1:51234'' \<mapsto>
             \<lparr>limiter = \<lparr>rate = 1, capacity = 5, tokens = 4, lastRefill = 7\<rparr>, lastSeen = 7\<rparr>]\<rparr>,
           PassedToNext)"
  by (simp_all add: legacy_Initialize_def DefaultConfig_def alloc_def heap0_def default_values_def
      legacy_handler_eq admit_fresh legacy_key_def direct_request_def)

section \<open>Burst admission\<close>

text \<open>
  C1. Take a limiter instance built by \<open>New\<close> whose configuration has \<open>Burst = 5\<close>, in
  any state its handlers and sweeps have led it to, and a key it holds no entry for.
  When the configured rate is a number, six admission checks for that key at one
  instant (zero elapsed time) answer true five times and then false. More generally,
  the bucket \<open>getVisitor\<close> creates for a new key starts with as many tokens as its
  capacity, which is the configured \<open>Burst\<close>.
\<close>

theorem burst_admission:
  assumes new: "New h0 cfg = (h, rl0)"
    and burst: "Burst (cells h (config rl0)) = 5"
    and reach: "rl = run h rl0 es"
    and fresh: "visitors rl ip = None"
    and t: "0 \<le> t"
  shows "(RequestsPerSecond (cells h (config rl0)) = Finite r \<longrightarrow>
            snd (admits h rl ip [(t, t), (t, t), (t, t), (t, t), (t, t), (t, t)]) =
              [True, True, True, True, True, False])
       \<and> tokens (snd (getVisitor h rl ip t)) = real_of_int (capacity (snd (getVisitor h rl ip t)))
       \<and> capacity (snd (getVisitor h rl ip t)) = Burst (cells h (config rl))
       \<and> visitors (fst (getVisitor h rl ip t)) ip =
           Some \<lparr>limiter = snd (getVisitor h rl ip t), lastSeen = t\<rparr>"
proof -
  have valid: "valid_config (cells h (config rl0))"
    using New_config_valid [of h0 cfg] new by simp
  have b: "Burst (cells h (config rl)) = 5"
    using burst reach by (simp add: run_config)
  have verdicts: "snd (admits h rl ip [(t, t), (t, t), (t, t), (t, t), (t, t), (t, t)]) =
           [True, True, True, True, True, False]"
    if finite: "RequestsPerSecond (cells h (config rl0)) = Finite r"
  proof -
    have r: "0 \<le> Limit (RequestsPerSecond (cells h (config rl)))"
      using valid_finite(2) [OF valid finite] reach by (simp add: run_config)
    show ?thesis
      unfolding exhaust_fresh [OF fresh r b t] by simp
  qed
  have created: "tokens (snd (getVisitor h rl ip t)) = real_of_int (capacity (snd (getVisitor h rl ip t)))
       \<and> capacity (snd (getVisitor h rl ip t)) = Burst (cells h (config rl))
       \<and> visitors (fst (getVisitor h rl ip t)) ip =
           Some \<lparr>limiter = snd (getVisitor h rl ip t), lastSeen = t\<rparr>"
    using fresh by (simp add: getVisitor_def NewLimiter_def Let_def)
  show ?thesis using verdicts created by simp
qed

theorem burst_admission_witness:
  "snd (admits (fst (New heap0 None)) (snd (New heap0 None)) ''203.0.113.7''
          [(7, 7), (7, 7), (7, 7), (7, 7), (7, 7), (7, 7)]) =
     [True, True, True, True, True, False]"
  using burst_admission [where ?h0.0 = heap0 and cfg = None and h = "fst (New heap0 None)"
      and ?rl0.0 = "snd (New heap0 None)" and rl = "snd (New heap0 None)" and es = "[]"
      and ip = "''203.0.113.7''" and t = 7 and r = 1]
  by (simp add: New_None default_values_def)

section \<open>Token bounds\<close>

text \<open>
  C2. In every state a limiter instance built by \<open>New\<close> with a rate that is a number
  reaches through admission checks and sweeps, the clock readings of \<open>Allow\<close> never
  going back, at every point of the sequence (every prefix), each bucket holds at least
  0 and at most its capacity tokens. For one check of a bucket in that range: the refill adds elapsed time times
  rate, capped at the capacity, so it never lowers the count and never exceeds the
  capacity; an admitted check then takes exactly one token; a rejected check takes
  nothing (the bucket keeps the refilled amount, and at zero elapsed time its count is
  unchanged); the bucket is in range afterwards. The handler of \<^verbatim>\<open>src/rate-limit.go\<close>, whose
  \<^verbatim>\<open>getVisitor\<close> is the same function over package variables, keeps every bucket
  of its map in range as well, given a configuration whose rate is a number and whose
  rate and burst are not negative (that file does not validate its configuration).
\<close>

theorem token_bounds:
  "(New h0 cfg = (h, rl0) \<and> RequestsPerSecond (cells h (config rl0)) = Finite r0
      \<and> sorted (0 # allow_times es) \<and> visitors (run h rl0 (take n es)) ip = Some v
      \<longrightarrow> 0 \<le> tokens (limiter v) \<and> tokens (limiter v) \<le> real_of_int (capacity (limiter v)))
   \<and> (bucket_ok l \<and> lastRefill l \<le> now \<longrightarrow>
        tokens (refill l now) = min (real_of_int (capacity l)) (tokens l + Seconds (now - lastRefill l) * rate l)
      \<and> tokens l \<le> tokens (refill l now)
      \<and> tokens (refill l now) \<le> real_of_int (capacity l)
      \<and> tokens (snd (Allow l now)) =
           (if fst (Allow l now) then tokens (refill l now) - 1 else tokens (refill l now))
      \<and> (lastRefill l = now \<and> \<not> fst (Allow l now) \<longrightarrow> tokens (snd (Allow l now)) = tokens l)
      \<and> bucket_ok (snd (Allow l now)))
   \<and> (g_config g = Some p \<and> RequestsPerSecond (cells hg p) = Finite rg \<and> 0 \<le> rg
        \<and> 0 \<le> Burst (cells hg p) \<and> buckets_ok t (g_visitors g) \<and> 0 \<le> tAllow \<and> t \<le> tAllow
        \<and> legacy_handler hg g r tSeen tAllow = Inr (g', resp)
      \<longrightarrow> buckets_ok tAllow (g_visitors g'))"
proof -
  have A: "0 \<le> tokens (limiter v) \<and> tokens (limiter v) \<le> real_of_int (capacity (limiter v))"
    if new: "New h0 cfg = (h, rl0)" and finite: "RequestsPerSecond (cells h (config rl0)) = Finite r0"
      and chron: "sorted (0 # allow_times es)"
      and v: "visitors (run h rl0 (take n es)) ip = Some v"
  proof -
    have valid: "valid_config (cells h (config rl0))"
      using New_config_valid [of h0 cfg] new by simp
    have empty: "visitors rl0 = Map.empty"
      using new by (auto simp add: New_def Let_def split_def)
    have "\<exists>t'. buckets_ok t' (visitors (run h rl0 (take n es)))"
      using valid_finite(2,4) [OF valid finite] empty allow_times_take [OF chron, of n]
      by (intro run_buckets_ok [where t = 0]) (simp_all add: buckets_ok_def)
    then show ?thesis using v by (auto simp add: buckets_ok_def bucket_ok_def)
  qed
  have B: "tokens (refill l now) = min (real_of_int (capacity l)) (tokens l + Seconds (now - lastRefill l) * rate l)
      \<and> tokens l \<le> tokens (refill l now)
      \<and> tokens (refill l now) \<le> real_of_int (capacity l)
      \<and> tokens (snd (Allow l now)) =
           (if fst (Allow l now) then tokens (refill l now) - 1 else tokens (refill l now))
      \<and> (lastRefill l = now \<and> \<not> fst (Allow l now) \<longrightarrow> tokens (snd (Allow l now)) = tokens l)
      \<and> bucket_ok (snd (Allow l now))"
    if ok: "bucket_ok l" and t: "lastRefill l \<le> now"
  proof -
    have same: "tokens (refill l now) = tokens l" if "lastRefill l = now"
      using that ok by (simp add: refill_def Seconds_def bucket_ok_def min_def)
    show ?thesis
      using refill_bounds [OF ok t] Allow_ok [OF ok t] same
      by (simp add: Allow_tokens) (simp add: refill_def)
  qed
  have C: "buckets_ok tAllow (g_visitors g')"
    if "g_config g = Some p" "RequestsPerSecond (cells hg p) = Finite rg" "0 \<le> rg"
      "0 \<le> Burst (cells hg p)" "buckets_ok t (g_visitors g)" "0 \<le> tAllow" "t \<le> tAllow"
      "legacy_handler hg g r tSeen tAllow = Inr (g', resp)"
    using that by (intro legacy_buckets_ok [of g p hg t tAllow r tSeen g' resp]) simp_all
  show ?thesis
    using A B C by blast
qed

theorem token_bounds_witness:
  "0 \<le> tokens \<lparr>rate = 1, capacity = 5, tokens = 4, lastRefill = 7\<rparr>
   \<and> tokens \<lparr>rate = 1, capacity = 5, tokens = 4, lastRefill = 7\<rparr> \<le> real_of_int 5
   \<and> bucket_ok (snd (Allow \<lparr>rate = 1, capacity = 5, tokens = 4, lastRefill = 7\<rparr> 500000007))
   \<and> tokens (snd (Allow \<lparr>rate = 1, capacity = 5, tokens = 4, lastRefill = 7\<rparr> 500000007)) = 7 / 2
   \<and> buckets_ok 7 [''10.0.0.1:51234'' \<mapsto>
        \<lparr>limiter = \<lparr>rate = 1, capacity = 5, tokens = 4, lastRefill = 7\<rparr>, lastSeen = 7\<rparr>]"
  using token_bounds [where ?h0.0 = heap0 and cfg = None and h = "fst (New heap0 None)"
      and ?rl0.0 = "snd (New heap0 None)" and es = "[Check ''203.0.113.7'' 7 7]" and n = 1
      and ip = "''203.0.113.7''"
      and v = "\<lparr>limiter = \<lparr>rate = 1, capacity = 5, tokens = 4, lastRefill = 7\<rparr>, lastSeen = 7\<rparr>"
      and l = "\<lparr>rate = 1, capacity = 5, tokens = 4, lastRefill = 7\<rparr>" and now = 500000007
      and ?r0.0 = 1 and rg = 1
      and g = "\<lparr>g_config = Some 0, g_visitors = Map.empty\<rparr>" and p = 0
      and hg = "fst (DefaultConfig heap0)" and t = 0 and tAllow = 7 and tSeen = 7
      and r = direct_request and resp = PassedToNext
      and g' = "\<lparr>g_config = Some 0, g_visitors = [''10.0.0.1:51234'' \<mapsto>
             \<lparr>limiter = \<lparr>rate = 1, capacity = 5, tokens = 4, lastRefill = 7\<rparr>, lastSeen = 7\<rparr>]\<rparr>"]
  by (simp add: New_None admit_fresh default_values_def bucket_ok_def Allow_def refill_def
      Let_def Seconds_def legacy_first_request buckets_ok_def)

section \<open>Refill after exhaustion\<close>

text \<open>
  C3. With one token per second and a capacity of 5: once six checks at one instant
  have exhausted the bucket of a new key, a check after a wait of at least one second
  is admitted; after a wait of less than two seconds a further check at that instant is
  rejected, so exactly one is admitted. For any bucket with these parameters and no
  negative count, a check at least one second after the last refill is admitted, and a
  check is admitted exactly when the refilled count is at least 1 (so it is rejected
  while the count is under 1). Elapsed time is counted once: a check sets the time of
  the last refill to its clock reading, refilling in two steps gives what refilling
  once over the whole time gives, and a rejected check leaves every later check as it
  would have been without it.
\<close>

theorem refill_after_exhaustion:
  "(New h0 cfg = (h, rl0) \<and> RequestsPerSecond (cells h (config rl0)) = Finite 1
      \<and> Burst (cells h (config rl0)) = 5 \<and> rl = run h rl0 es \<and> visitors rl ip = None
      \<and> 0 \<le> t \<and> Second \<le> w \<longrightarrow>
        snd (admits h rl ip ([(t, t), (t, t), (t, t), (t, t), (t, t), (t, t)] @ [(t + w, t + w)])) =
          [True, True, True, True, True, False, True]
      \<and> (w < 2 * Second \<longrightarrow>
           snd (admits h rl ip ([(t, t), (t, t), (t, t), (t, t), (t, t), (t, t)]
                                  @ [(t + w, t + w), (t + w, t + w)])) =
             [True, True, True, True, True, False, True, False]))
   \<and> (rate l = 1 \<and> capacity l = 5 \<and> 0 \<le> tokens l \<and> lastRefill l + Second \<le> now
        \<longrightarrow> fst (Allow l now))
   \<and> fst (Allow l now) = (1 \<le> tokens (refill l now))
   \<and> lastRefill (snd (Allow l now)) = now
   \<and> (0 \<le> rate l \<and> lastRefill l \<le> t1 \<and> t1 \<le> t2 \<longrightarrow>
        refill (refill l t1) t2 = refill l t2
      \<and> (\<not> fst (Allow l t1) \<longrightarrow> Allow (snd (Allow l t1)) t2 = Allow l t2))"
proof -
  have A: "snd (admits h rl ip ([(t, t), (t, t), (t, t), (t, t), (t, t), (t, t)] @ [(t + w, t + w)])) =
          [True, True, True, True, True, False, True]
      \<and> (w < 2 * Second \<longrightarrow>
           snd (admits h rl ip ([(t, t), (t, t), (t, t), (t, t), (t, t), (t, t)]
                                  @ [(t + w, t + w), (t + w, t + w)])) =
             [True, True, True, True, True, False, True, False])"
    if new: "New h0 cfg = (h, rl0)" and r1: "RequestsPerSecond (cells h (config rl0)) = Finite 1"
      and b5: "Burst (cells h (config rl0)) = 5" and reach: "rl = run h rl0 es"
      and fresh: "visitors rl ip = None" and t: "0 \<le> t" and w: "Second \<le> w"
  proof -
    have r: "Limit (RequestsPerSecond (cells h (config rl))) = 1"
      and b: "Burst (cells h (config rl)) = 5"
      using r1 b5 reach by (simp_all add: run_config)
    define E where "E = rl\<lparr>visitors := (visitors rl)(ip \<mapsto>
         \<lparr>limiter = \<lparr>rate = 1, capacity = 5, tokens = 0, lastRefill = t\<rparr>, lastSeen = t\<rparr>)\<rparr>"
    define x where "x = min 5 (Seconds w)"
    define F where "F y = rl\<lparr>visitors := (visitors rl)(ip \<mapsto>
         \<lparr>limiter = \<lparr>rate = 1, capacity = 5, tokens = y, lastRefill = t + w\<rparr>,
          lastSeen = t + w\<rparr>)\<rparr>" for y :: real
    have six: "admits h rl ip [(t, t), (t, t), (t, t), (t, t), (t, t), (t, t)] =
                 (E, [True, True, True, True, True, False])"
      using exhaust_fresh [OF fresh _ b t] r by (simp add: E_def)
    have x1: "1 \<le> x" "x \<le> 5"
      using Seconds_ge_one [OF w] by (simp_all add: x_def)
    have seventh: "admit h E ip (t + w) (t + w) = (F (x - 1), True)"
      using x1 by (simp add: E_def F_def admit_existing Allow_def refill_def Let_def x_def)
    have eighth: "admit h (F (x - 1)) ip (t + w) (t + w) = (F (x - 1), False)" if "w < 2 * Second"
    proof -
      have "x - 1 < 1" using Seconds_less_two [OF that] by (simp add: x_def)
      then show ?thesis
        using x1 by (simp add: F_def admit_at_instant [where x = "x - 1" and ?t0.0 = "t + w"])
    qed
    show ?thesis
      unfolding admits_append six fst_conv snd_conv
      by (simp add: seventh eighth)
  qed
  have B: "fst (Allow l now)"
    if "rate l = 1" "capacity l = 5" "0 \<le> tokens l" "lastRefill l + Second \<le> now"
  proof -
    have "1 \<le> Seconds (now - lastRefill l)"
      using that by (intro Seconds_ge_one) simp
    then show ?thesis using that by (simp add: Allow_def refill_def Let_def)
  qed
  have C: "fst (Allow l now) = (1 \<le> tokens (refill l now))" "lastRefill (snd (Allow l now)) = now"
    by (simp_all add: Allow_def Let_def refill_def)
  have D: "refill (refill l t1) t2 = refill l t2
      \<and> (\<not> fst (Allow l t1) \<longrightarrow> Allow (snd (Allow l t1)) t2 = Allow l t2)"
    if "0 \<le> rate l" "lastRefill l \<le> t1" "t1 \<le> t2"
    using refill_refill [OF that] by (simp add: Allow_def Let_def)
  show ?thesis using A B C D by blast
qed

theorem refill_after_exhaustion_witness:
  "snd (admits (fst (New heap0 None)) (snd (New heap0 None)) ''203.0.113.7''
          ([(7, 7), (7, 7), (7, 7), (7, 7), (7, 7), (7, 7)]
           @ [(7 + 1500000000, 7 + 1500000000), (7 + 1500000000, 7 + 1500000000)])) =
     [True, True, True, True, True, False, True, False]
   \<and> fst (Allow \<lparr>rate = 1, capacity = 5, tokens = 0, lastRefill = 7\<rparr> 1000000007)
   \<and> refill (refill \<lparr>rate = 1, capacity = 5, tokens = 0, lastRefill = 7\<rparr> 400000007) 1000000007 =
       refill \<lparr>rate = 1, capacity = 5, tokens = 0, lastRefill = 7\<rparr> 1000000007
   \<and> Allow (snd (Allow \<lparr>rate = 1, capacity = 5, tokens = 0, lastRefill = 7\<rparr> 400000007)) 1000000007 =
       Allow \<lparr>rate = 1, capacity = 5, tokens = 0, lastRefill = 7\<rparr> 1000000007"
  using refill_after_exhaustion [of heap0 None "fst (New heap0 None)" "snd (New heap0 None)"
      "snd (New heap0 None)" "[]" "''203.0.113.7''" 7 1500000000
      "\<lparr>rate = 1, capacity = 5, tokens = 0, lastRefill = 7\<rparr>" 1000000007 400000007 1000000007]
  by (simp add: New_None default_values_def Second_def Allow_def refill_def Let_def Seconds_def)

section \<open>Construction\<close>




section \<open>The sweep\<close>

text \<open>
  For the instance (\<^verbatim>\<open>RateLimiter.cleanupVisitors\<close>) the facts \<open>cleanup_pass_exact\<close>,
  \<open>admit_keeps_keys\<close> and \<open>getVisitor_keeps_keys\<close> above say that a pass removes exactly
  the entries with \<open>now - lastSeen \<ge> MaxIdleTime\<close> and that no other operation removes
  an entry.

  C5, at the boundary, in \<^verbatim>\<open>src/rate-limit.go\<close>: after \<^verbatim>\<open>Initialize(nil)\<close> and one
  request at time 7, a pass of the legacy sweep exactly \<open>MaxIdleTime\<close> (180 s) later
  keeps the entry, whose idle age equals the threshold; the pass of the instance removes
  it from the same map.
\<close>

theorem legacy_sweep_keeps_boundary_entry:
  "legacy_Initialize heap0 \<lparr>g_config = None, g_visitors = Map.empty\<rparr> None =
     (fst (DefaultConfig heap0), \<lparr>g_config = Some 0, g_visitors = Map.empty\<rparr>)
   \<and> legacy_handler (fst (DefaultConfig heap0)) \<lparr>g_config = Some 0, g_visitors = Map.empty\<rparr>
        direct_request 7 7 =
      Inr (\<lparr>g_config = Some 0, g_visitors = [''10.0.0.1:51234'' \<mapsto>
             \<lparr>limiter = \<lparr>rate = 1, capacity = 5, tokens = 4, lastRefill = 7\<rparr>, lastSeen = 7\<rparr>]\<rparr>,
           PassedToNext)
   \<and> (7 + 180 * Second) - 7 = MaxIdleTime (cells (fst (DefaultConfig heap0)) 0)
   \<and> map_sum id (\<lambda>g. g_visitors g ''10.0.0.1:51234'')
        (legacy_cleanupVisitors_pass (fst (DefaultConfig heap0))
           \<lparr>g_config = Some 0, g_visitors = [''10.0.0.1:51234'' \<mapsto>
             \<lparr>limiter = \<lparr>rate = 1, capacity = 5, tokens = 4, lastRefill = 7\<rparr>, lastSeen = 7\<rparr>]\<rparr>
           (7 + 180 * Second)) =
      Inr (Some \<lparr>limiter = \<lparr>rate = 1, capacity = 5, tokens = 4, lastRefill = 7\<rparr>, lastSeen = 7\<rparr>)
   \<and> visitors (cleanupVisitors_pass (fst (DefaultConfig heap0))
           \<lparr>config = 0, visitors = [''10.0.0.1:51234'' \<mapsto>
             \<lparr>limiter = \<lparr>rate = 1, capacity = 5, tokens = 4, lastRefill = 7\<rparr>, lastSeen = 7\<rparr>]\<rparr>
           (7 + 180 * Second)) ''10.0.0.1:51234'' = None"
  by (simp add: legacy_Initialize_def DefaultConfig_def alloc_def heap0_def default_values_def
      legacy_handler_eq admit_fresh legacy_key_def direct_request_def
      legacy_cleanupVisitors_pass_def cleanupVisitors_pass_def Minute_def)

section \<open>Idle eviction\<close>

text \<open>
  C6. In any state a limiter instance built by \<open>New\<close> has reached, take an entry whose
  key was last seen at least \<open>MaxIdleTime\<close> before the sweep's clock reading. The pass
  removes the entry. The next \<open>getVisitor\<close> for the key builds a new bucket holding as
  many tokens as the configured burst, which is at least 1, and, the configured rate
  being a number, the admission check is admitted, whatever the old bucket held.
\<close>

theorem idle_eviction:
  assumes new: "New h0 cfg = (h, rl0)"
    and reach: "rl = run h rl0 es"
    and entry: "visitors rl ip = Some v"
    and idle: "MaxIdleTime (cells h (config rl)) \<le> now - lastSeen v"
    and t: "0 \<le> tAllow"
  shows "visitors (cleanupVisitors_pass h rl now) ip = None
       \<and> snd (getVisitor h (cleanupVisitors_pass h rl now) ip tSeen) =
           NewLimiter (Limit (RequestsPerSecond (cells h (config rl)))) (Burst (cells h (config rl)))
       \<and> tokens (snd (getVisitor h (cleanupVisitors_pass h rl now) ip tSeen)) =
           real_of_int (Burst (cells h (config rl)))
       \<and> 1 \<le> Burst (cells h (config rl))
       \<and> (RequestsPerSecond (cells h (config rl)) = Finite r \<longrightarrow>
            snd (admit h (cleanupVisitors_pass h rl now) ip tSeen tAllow))"
proof -
  have gone: "visitors (cleanupVisitors_pass h rl now) ip = None"
    using entry idle by (simp add: cleanup_pass_exact)
  have valid: "valid_config (cells h (config rl))"
    using New_valid_reached [OF new] reach by simp
  have fresh: "snd (getVisitor h (cleanupVisitors_pass h rl now) ip tSeen) =
           NewLimiter (Limit (RequestsPerSecond (cells h (config rl)))) (Burst (cells h (config rl)))"
    using gone by (simp add: getVisitor_def Let_def cleanup_pass_config)
  have "snd (admit h (cleanupVisitors_pass h rl now) ip tSeen tAllow)"
    if "RequestsPerSecond (cells h (config rl)) = Finite r"
    using valid gone t that
    by (intro first_check_admitted [where r = r]) (simp_all add: cleanup_pass_config)
  then show ?thesis
    using gone fresh valid by (simp add: NewLimiter_def valid_config_def)
qed

theorem idle_eviction_witness:
  "visitors (cleanupVisitors_pass (fst (New heap0 None))
       \<lparr>config = 0, visitors = [''203.0.113.7'' \<mapsto>
           \<lparr>limiter = \<lparr>rate = 1, capacity = 5, tokens = 0, lastRefill = 7\<rparr>, lastSeen = 7\<rparr>]\<rparr>
       (7 + 180 * Second)) ''203.0.113.7'' = None
   \<and> snd (admit (fst (New heap0 None))
       (cleanupVisitors_pass (fst (New heap0 None))
          \<lparr>config = 0, visitors = [''203.0.113.7'' \<mapsto>
              \<lparr>limiter = \<lparr>rate = 1, capacity = 5, tokens = 0, lastRefill = 7\<rparr>, lastSeen = 7\<rparr>]\<rparr>
          (7 + 180 * Second))
       ''203.0.113.7'' (7 + 180 * Second) (7 + 180 * Second))"
proof -
  let ?h = "fst (New heap0 None)" and ?rl0 = "snd (New heap0 None)"
  let ?ts = "[(7, 7), (7, 7), (7, 7), (7, 7), (7, 7), (7, 7)] :: (time \<times> time) list"
  let ?E = "\<lparr>config = 0, visitors = [''203.0.113.7'' \<mapsto>
           \<lparr>limiter = \<lparr>rate = 1, capacity = 5, tokens = 0, lastRefill = 7\<rparr>, lastSeen = 7\<rparr>]\<rparr>"
  have six: "admits ?h ?rl0 ''203.0.113.7'' ?ts = (?E, [True, True, True, True, True, False])"
    by (subst exhaust_fresh) (simp_all add: New_None default_values_def)
  have reach: "?E = run ?h ?rl0 (map (\<lambda>(tSeen, tAllow). Check ''203.0.113.7'' tSeen tAllow) ?ts)"
    unfolding run_checks six by simp
  have idle: "MaxIdleTime (cells ?h (config ?E)) \<le> (7 + 180 * Second) - lastSeen
      \<lparr>limiter = \<lparr>rate = 1, capacity = 5, tokens = 0, lastRefill = 7\<rparr>, lastSeen = 7\<rparr>"
    by (simp add: New_None default_values_def Minute_def)
  show ?thesis
    using idle_eviction [OF _ reach _ idle, where ?h0.0 = heap0 and cfg = None
        and ip = "''203.0.113.7''" and tSeen = "7 + 180 * Second" and tAllow = "7 + 180 * Second"
        and r = 1]
    by (simp add: Second_def New_None default_values_def)
qed

section \<open>Per-key isolation\<close>

text \<open>
  C7. An admission check for a key, and any sequence of them, leaves the entry of every
  other key and the configuration pointer as they were; the store of configurations is
  only read. In the entry of the key itself only \<open>lastSeen\<close> and, in its bucket, the
  tokens and the time of the last refill change. So for a limiter instance built by
  \<open>New\<close> with a rate that is a number, after any checks for a key A the first check of a
  key B with no entry is admitted. The handler of \<^verbatim>\<open>src/rate-limit.go\<close> leaves the entries of other keys
  and the configuration pointer alone as well, and admits the first check of a new key
  when the configured burst is at least 1 and the rate is a number that is not negative.
\<close>

theorem per_key_isolation:
  "(ip' \<noteq> ip \<longrightarrow>
      visitors (fst (admit h rl ip tSeen tAllow)) ip' = visitors rl ip'
    \<and> visitors (fst (admits h rl ip ts)) ip' = visitors rl ip')
   \<and> config (fst (admit h rl ip tSeen tAllow)) = config rl
   \<and> config (fst (admits h rl ip ts)) = config rl
   \<and> (visitors rl ip = Some v \<longrightarrow>
        visitors (fst (admit h rl ip tSeen tAllow)) ip =
          Some (v\<lparr>lastSeen := tSeen,
                  limiter := (limiter v)\<lparr>tokens := tokens (snd (Allow (limiter v) tAllow)),
                                          lastRefill := tAllow\<rparr>\<rparr>))
   \<and> (New h0 cfg = (h, rl0) \<and> RequestsPerSecond (cells h (config rl0)) = Finite r0
        \<and> rl = run h rl0 es \<and> visitors rl ipB = None \<and> ipB \<noteq> ipA \<and> 0 \<le> t
        \<longrightarrow> snd (admit h (fst (admits h rl ipA ts)) ipB tSeen t))
   \<and> (legacy_handler h g r tSeen tAllow = Inr (g', resp) \<and> ip' \<noteq> legacy_key r
        \<longrightarrow> g_visitors g' ip' = g_visitors g ip' \<and> g_config g' = g_config g)
   \<and> (g_config g = Some p \<and> RequestsPerSecond (cells h p) = Finite rg \<and> 0 \<le> rg
        \<and> 1 \<le> Burst (cells h p) \<and> g_visitors g (legacy_key r) = None \<and> 0 \<le> tAllow
      \<longrightarrow> (\<exists>g1. legacy_handler h g r tSeen tAllow = Inr (g1, PassedToNext)))"
proof -
  have entry: "visitors (fst (admit h rl ip tSeen tAllow)) ip =
          Some (v\<lparr>lastSeen := tSeen,
                  limiter := (limiter v)\<lparr>tokens := tokens (snd (Allow (limiter v) tAllow)),
                                          lastRefill := tAllow\<rparr>\<rparr>)"
    if "visitors rl ip = Some v"
    using that by (simp add: admit_existing Allow_def refill_def Let_def)
  have other: "snd (admit h (fst (admits h rl ipA ts)) ipB tSeen t)"
    if "New h0 cfg = (h, rl0)" "rl = run h rl0 es" "visitors rl ipB = None" "ipB \<noteq> ipA" "0 \<le> t"
      "RequestsPerSecond (cells h (config rl0)) = Finite r0"
  proof -
    have "valid_config (cells h (config rl))"
      using New_valid_reached [OF that(1)] that(2) by simp
    then show ?thesis
      using that
      by (intro first_check_admitted [where r = r0])
         (simp_all add: admits_config admits_other_key run_config)
  qed
  have frame: "visitors (fst (admit h rl ip tSeen tAllow)) ip' = visitors rl ip'
    \<and> visitors (fst (admits h rl ip ts)) ip' = visitors rl ip'" if "ip' \<noteq> ip"
    using that by (simp add: admit_other_key admits_other_key)
  have cfgs: "config (fst (admit h rl ip tSeen tAllow)) = config rl"
    "config (fst (admits h rl ip ts)) = config rl"
    by (simp_all add: admit_config admits_config)
  have legacy: "\<exists>g1. legacy_handler h g r tSeen tAllow = Inr (g1, PassedToNext)"
    if "g_config g = Some p" "RequestsPerSecond (cells h p) = Finite rg" "0 \<le> rg"
      "1 \<le> Burst (cells h p)" "g_visitors g (legacy_key r) = None" "0 \<le> tAllow"
    using that by (intro legacy_first_check [of g p h r tAllow tSeen]) simp_all
  show ?thesis
    using frame cfgs entry other legacy legacy_handler_other_key [of h g r tSeen tAllow g' resp ip']
    by blast
qed

theorem per_key_isolation_witness:
  "visitors (fst (admits (fst (New heap0 None)) (snd (New heap0 None)) ''203.0.113.7''
       [(7, 7), (7, 7), (7, 7), (7, 7), (7, 7), (7, 7)])) ''198.51.100.9'' = None
   \<and> snd (admit (fst (New heap0 None))
        (fst (admits (fst (New heap0 None)) (snd (New heap0 None)) ''203.0.113.7''
           [(7, 7), (7, 7), (7, 7), (7, 7), (7, 7), (7, 7)])) ''198.51.100.9'' 7 7)
   \<and> g_visitors \<lparr>g_config = Some 0, g_visitors = [''10.0.0.1:51234'' \<mapsto>
             \<lparr>limiter = \<lparr>rate = 1, capacity = 5, tokens = 4, lastRefill = 7\<rparr>, lastSeen = 7\<rparr>]\<rparr>
        ''198.51.100.9'' = None
   \<and> (\<exists>g1. legacy_handler (fst (DefaultConfig heap0)) \<lparr>g_config = Some 0, g_visitors = Map.empty\<rparr>
               direct_request 7 7 = Inr (g1, PassedToNext))"
  using per_key_isolation [where ip' = "''198.51.100.9''" and ip = "''203.0.113.7''"
      and ts = "[(7, 7), (7, 7), (7, 7), (7, 7), (7, 7), (7, 7)]"
      and h = "fst (New heap0 None)" and rl = "snd (New heap0 None)"
      and ?h0.0 = heap0 and cfg = None and ?rl0.0 = "snd (New heap0 None)" and es = "[]"
      and ipA = "''203.0.113.7''" and ipB = "''198.51.100.9''" and t = 7 and tSeen = 7
      and ?r0.0 = 1]
    per_key_isolation [where ip' = "''198.51.100.9''" and h = "fst (DefaultConfig heap0)"
      and g = "\<lparr>g_config = Some 0, g_visitors = Map.empty\<rparr>" and r = direct_request and rg = 1
      and tSeen = 7 and tAllow = 7 and p = 0 and resp = PassedToNext
      and g' = "\<lparr>g_config = Some 0, g_visitors = [''10.0.0.1:51234'' \<mapsto>
             \<lparr>limiter = \<lparr>rate = 1, capacity = 5, tokens = 4, lastRefill = 7\<rparr>, lastSeen = 7\<rparr>]\<rparr>"]
  by (simp add: New_None legacy_first_request default_values_def legacy_key_def direct_request_def)

section \<open>The lifetime of the sweep\<close>




section \<open>The key of a request\<close>

text \<open>
  For the instance, \<open>getClientIP_precedence\<close> above gives the key of \<^verbatim>\<open>Middleware\<close>:
  the trimmed first comma-separated entry of \<^verbatim>\<open>X-Forwarded-For\<close> when that header is
  not empty, else \<^verbatim>\<open>X-Real-IP\<close> when it is not empty, else the host of
  \<^verbatim>\<open>RemoteAddr\<close>, or \<^verbatim>\<open>RemoteAddr\<close> itself when it does not split.

  C9, in \<^verbatim>\<open>src/rate-limit.go\<close>: the handler of the legacy \<^verbatim>\<open>RateLimitMiddleware\<close>
  takes \<^verbatim>\<open>r.RemoteAddr\<close> as the key. For a request carrying
  \<^verbatim>\<open>X-Forwarded-For: 203.0.113.7, 10.0.0.2\<close> its key is \<^verbatim>\<open>10.0.0.1:51234\<close> where
  \<open>getClientIP\<close> gives \<^verbatim>\<open>203.0.113.7\<close>; for a request with neither header its key
  keeps the port where \<open>getClientIP\<close> gives the host \<^verbatim>\<open>10.0.0.1\<close>.
\<close>

theorem legacy_key_is_remote_addr:
  "legacy_key forwarded_request = ''10.0.0.1:51234''
   \<and> getClientIP plain_stdlib forwarded_request = Inr ''203.0.113.7''
   \<and> legacy_key direct_request = ''10.0.0.1:51234''
   \<and> getClientIP plain_stdlib direct_request = Inr ''10.0.0.1''"
  by (simp add: legacy_key_def forwarded_request_def direct_request_def getClientIP_precedence
      plain_stdlib_def plain_TrimSpace_def plain_SplitHostPort_def)

section \<open>The shared configuration\<close>

text \<open>
  C10. \<open>New\<close> keeps the pointer it is given and \<open>Validate\<close> writes through it: the
  caller's \<open>Config\<close> holds the default in each field that failed its test and is
  unchanged in every other field; no other cell of the store changes and nothing is
  allocated. If any field was invalid the caller's \<open>Config\<close> differs from what it was;
  if the configuration was valid the store is unchanged. \<open>Initialize\<close> is \<open>New\<close>, kept
  in \<^verbatim>\<open>globalLimiter\<close>. A later write to the caller's \<open>Config\<close> is what the limiter
  reads: the bucket of the next new key is built from the written rate and burst, and
  a sweep compares against the written \<open>MaxIdleTime\<close>.
\<close>

theorem config_shared_and_mutated:
  "config (snd (New h (Some p))) = p
   \<and> cells (fst (New h (Some p))) p =
       \<lparr>RequestsPerSecond = (if le_zero (RequestsPerSecond (cells h p)) then Finite 1
                            else RequestsPerSecond (cells h p)),
        Burst = (if Burst (cells h p) \<le> 0 then 5 else Burst (cells h p)),
        CleanupInterval = (if CleanupInterval (cells h p) < Second then Minute
                           else CleanupInterval (cells h p)),
        MaxIdleTime = (if MaxIdleTime (cells h p) < Second then 3 * Minute
                       else MaxIdleTime (cells h p))\<rparr>
   \<and> (q \<noteq> p \<longrightarrow> cells (fst (New h (Some p))) q = cells h q)
   \<and> next_free (fst (New h (Some p))) = next_free h
   \<and> (le_zero (RequestsPerSecond (cells h p)) \<or> Burst (cells h p) \<le> 0
        \<or> CleanupInterval (cells h p) < Second \<or> MaxIdleTime (cells h p) < Second
      \<longrightarrow> cells (fst (New h (Some p))) p \<noteq> cells h p)
   \<and> (valid_config (cells h p) \<longrightarrow> fst (New h (Some p)) = h)
   \<and> Initialize h (Some p) = (fst (New h (Some p)), Some (snd (New h (Some p))))
   \<and> snd (getVisitor (store (fst (New h (Some p))) p c2) (snd (New h (Some p))) ip now) =
       NewLimiter (Limit (RequestsPerSecond c2)) (Burst c2)
   \<and> (config rl = p \<longrightarrow>
        visitors (cleanupVisitors_pass (store (fst (New h (Some p))) p c2) rl now) ip =
          (case visitors rl ip of
             None \<Rightarrow> None
           | Some v \<Rightarrow> if MaxIdleTime c2 \<le> now - lastSeen v then None else Some v))"
proof -
  have fields: "cells (fst (New h (Some p))) p =
       \<lparr>RequestsPerSecond = (if le_zero (RequestsPerSecond (cells h p)) then Finite 1
                            else RequestsPerSecond (cells h p)),
        Burst = (if Burst (cells h p) \<le> 0 then 5 else Burst (cells h p)),
        CleanupInterval = (if CleanupInterval (cells h p) < Second then Minute
                           else CleanupInterval (cells h p)),
        MaxIdleTime = (if MaxIdleTime (cells h p) < Second then 3 * Minute
                       else MaxIdleTime (cells h p))\<rparr>"
    by (simp add: New_fst_snd Validate_cells)
  have others: "cells (fst (New h (Some p))) q = cells h q" if "q \<noteq> p"
    using that by (simp add: New_fst_snd Validate_cells)
  have nf: "next_free (fst (New h (Some p))) = next_free h"
    by (simp add: New_def Let_def Validate_next_free)
  have changed: "cells (fst (New h (Some p))) p \<noteq> cells h p"
    if "le_zero (RequestsPerSecond (cells h p)) \<or> Burst (cells h p) \<le> 0
        \<or> CleanupInterval (cells h p) < Second \<or> MaxIdleTime (cells h p) < Second"
  proof
    assume eq: "cells (fst (New h (Some p))) p = cells h p"
    have "valid_config (cells (fst (New h (Some p))) p)"
      using New_config_valid [of h "Some p"] by (simp add: New_fst_snd)
    then have "valid_config (cells h p)" using eq by simp
    then show False using that by (auto simp add: valid_config_def)
  qed
  have same: "fst (New h (Some p)) = h" if "valid_config (cells h p)"
    using that by (simp add: New_def Let_def Validate_valid_id)
  have init: "Initialize h (Some p) = (fst (New h (Some p)), Some (snd (New h (Some p))))"
    by (simp add: Initialize_def split_def Let_def)
  have seen: "snd (getVisitor (store (fst (New h (Some p))) p c2) (snd (New h (Some p))) ip now) =
       NewLimiter (Limit (RequestsPerSecond c2)) (Burst c2)"
    by (simp add: getVisitor_def New_fst_snd store_def Let_def)
  have sweep: "visitors (cleanupVisitors_pass (store (fst (New h (Some p))) p c2) rl now) ip =
          (case visitors rl ip of
             None \<Rightarrow> None
           | Some v \<Rightarrow> if MaxIdleTime c2 \<le> now - lastSeen v then None else Some v)"
    if "config rl = p"
    using that by (simp add: cleanup_pass_exact store_def split: option.split)
  show ?thesis
    using fields others nf changed same init seen sweep by (simp add: New_fst_snd(2))
qed

theorem config_shared_and_mutated_witness:
  "cells heap0 0 = \<lparr>RequestsPerSecond = Finite 0, Burst = 0, CleanupInterval = 0, MaxIdleTime = 0\<rparr>
   \<and> cells (fst (New heap0 (Some 0))) 0 =
       \<lparr>RequestsPerSecond = Finite 1, Burst = 5, CleanupInterval = Minute, MaxIdleTime = 3 * Minute\<rparr>
   \<and> cells (fst (New heap0 (Some 0))) 0 \<noteq> cells heap0 0
   \<and> cells (fst (New heap0 (Some 0))) 1 = cells heap0 1
   \<and> fst (New (fst (New heap0 (Some 0))) (Some 0)) = fst (New heap0 (Some 0))
   \<and> snd (getVisitor
            (store (fst (New heap0 (Some 0))) 0
               \<lparr>RequestsPerSecond = Finite 10, Burst = 0, CleanupInterval = Minute, MaxIdleTime = Minute\<rparr>)
            (snd (New heap0 (Some 0))) ''203.0.113.7'' 7) = NewLimiter 10 0"
  using config_shared_and_mutated [where h = heap0 and p = 0 and q = 1 and ip = "''203.0.113.7''"
      and now = 7
      and ?c2.0 = "\<lparr>RequestsPerSecond = Finite 10, Burst = 0, CleanupInterval = Minute, MaxIdleTime = Minute\<rparr>"]
    config_shared_and_mutated [where h = "fst (New heap0 (Some 0))" and p = 0]
    New_config_valid [of heap0 "Some 0"]
  by (simp add: heap0_def Second_def)

end
